theory Spec2Isabelle
  imports Complex_Main
begin

section \<open>Exceptions\<close>

text \<open>
  A Python exception is a value of \<open>error\<close>; a function that may raise returns
  \<open>error + 'a\<close>, with \<open>Inl\<close> for the exception. \<open>SystemExit\<close> carries the status of
  \<open>sys.exit\<close>.
\<close>

datatype error =
    AttributeError
  | TypeError
  | KeyError
  | ValueError
  | OverflowError
  | SystemExit nat

definition bind_err :: "error + 'a \<Rightarrow> ('a \<Rightarrow> error + 'b) \<Rightarrow> error + 'b" where
  "bind_err m f = (case m of Inl e \<Rightarrow> Inl e | Inr x \<Rightarrow> f x)"

section \<open>Strings and the regular expressions of \<open>slack.py\<close>\<close>

text \<open>
  The URL is a Python \<open>str\<close> that the program matches character by character and
  slices by position, so it is modelled as the list of its characters (code points):
  \<open>Ascii c\<close> for a character below 128 and \<open>Wide n\<close> for the code point \<open>n\<close> from 128
  up. \<open>str\<close> writes an ASCII text of the program as such a list.
\<close>

datatype uchar = Ascii char | Wide nat

type_synonym ustring = "uchar list"

definition str :: "string \<Rightarrow> ustring" where
  "str s = map Ascii s"

text \<open>
  The patterns of the program are concatenations of literal text and of greedy
  one-or-more repetitions of a character class, some of them captured. The matcher
  below is the backtracking search of Python's \<open>re\<close> on such a pattern: a repetition
  first takes the longest run of characters of its class, and gives characters back
  one at a time (never fewer than one left) until the rest of the pattern matches.
\<close>

datatype atom =
    Lit ustring
  | Plus "uchar \<Rightarrow> bool"
  | Group "uchar \<Rightarrow> bool"

text \<open>\<open>try_down f n\<close> is the first success among \<open>f n, f (n - 1), ..., f 1\<close>.\<close>

fun try_down :: "(nat \<Rightarrow> 'a option) \<Rightarrow> nat \<Rightarrow> 'a option" where
  "try_down f 0 = None"
| "try_down f (Suc n) = (case f (Suc n) of Some r \<Rightarrow> Some r | None \<Rightarrow> try_down f n)"

text \<open>
  \<open>rmatch pat s\<close> matches \<open>pat\<close> at the start of \<open>s\<close> and returns the captured
  groups, in order, with the text left after the match.
\<close>

primrec rmatch :: "atom list \<Rightarrow> ustring \<Rightarrow> (ustring list \<times> ustring) option" where
  "rmatch [] s = Some ([], s)"
| "rmatch (a # as) s =
    (case a of
       Lit l \<Rightarrow> (if take (length l) s = l then rmatch as (drop (length l) s) else None)
     | Plus p \<Rightarrow> try_down (\<lambda>k. rmatch as (drop k s)) (length (takeWhile p s))
     | Group p \<Rightarrow>
         try_down
           (\<lambda>k. case rmatch as (drop k s) of
                  None \<Rightarrow> None
                | Some (gs, r) \<Rightarrow> Some (take k s # gs, r))
           (length (takeWhile p s)))"

text \<open>\<open>re.match\<close>: the pattern is tried at the start of the string only.\<close>

definition re_match :: "atom list \<Rightarrow> ustring \<Rightarrow> ustring list option" where
  "re_match pat s = (case rmatch pat s of None \<Rightarrow> None | Some (gs, r) \<Rightarrow> Some gs)"

text \<open>\<open>re.search\<close>: the pattern is tried at every position, from the left.\<close>

fun re_search :: "atom list \<Rightarrow> ustring \<Rightarrow> ustring list option" where
  "re_search pat [] = re_match pat []"
| "re_search pat (c # cs) =
    (case re_match pat (c # cs) of Some gs \<Rightarrow> Some gs | None \<Rightarrow> re_search pat cs)"

text \<open>Python's \<open>sub in s\<close> on strings.\<close>

fun contains :: "ustring \<Rightarrow> ustring \<Rightarrow> bool" where
  "contains sub [] = (sub = [])"
| "contains sub (c # cs) = (take (length sub) (c # cs) = sub \<or> contains sub cs)"

text \<open>
  Python's slices \<open>s[:k]\<close> and \<open>s[k:]\<close>: a negative bound counts from the end, and
  a bound outside the string is clamped to it.
\<close>

definition slice_bound :: "'a list \<Rightarrow> int \<Rightarrow> nat" where
  "slice_bound s k =
    (let n = int (length s) in nat (if k < 0 then max 0 (n + k) else min k n))"

definition slice_upto :: "'a list \<Rightarrow> int \<Rightarrow> 'a list" where
  "slice_upto s k = take (slice_bound s k) s"

definition slice_from :: "'a list \<Rightarrow> int \<Rightarrow> 'a list" where
  "slice_from s k = drop (slice_bound s k) s"

section \<open>\<open>parse_slack_url\<close>\<close>

text \<open>
  The character classes of the two patterns. \<open>[^/]\<close>, \<open>[A-Z0-9]\<close> and \<open>[0-9.]\<close>
  name their characters. \<open>\d\<close>, in a \<open>str\<close> pattern compiled without \<open>re.ASCII\<close>,
  is every decimal digit of Unicode: the ten ASCII digits and, from code point 128 up,
  the digits of the other scripts. Which code points those are is a table of the
  Python runtime, not of this program; the model takes it as the parameter \<open>nd\<close>.
\<close>

definition not_slash :: "uchar \<Rightarrow> bool" where
  "not_slash c = (c \<noteq> Ascii (CHR ''/''))"

definition upper_or_digit :: "uchar \<Rightarrow> bool" where
  "upper_or_digit c = (c \<in> set (str ''ABCDEFGHIJKLMNOPQRSTUVWXYZ0123456789''))"

fun decimal :: "(nat \<Rightarrow> bool) \<Rightarrow> uchar \<Rightarrow> bool" where
  "decimal nd (Ascii c) = (c \<in> set ''0123456789'')"
| "decimal nd (Wide n) = nd n"

definition digit_or_dot :: "uchar \<Rightarrow> bool" where
  "digit_or_dot c = (c \<in> set (str ''0123456789.''))"

text \<open>\<^verbatim>\<open>https://[^/]+\.slack\.com/archives/([A-Z0-9]+)/p(\d+)\<close>\<close>

definition url_pattern :: "(nat \<Rightarrow> bool) \<Rightarrow> atom list" where
  "url_pattern nd =
    [Lit (str ''https://''), Plus not_slash, Lit (str ''.slack.com/archives/''),
     Group upper_or_digit, Lit (str ''/p''), Group (decimal nd)]"

text \<open>\<^verbatim>\<open>thread_ts=([0-9.]+)\<close>\<close>

definition thread_pattern :: "atom list" where
  "thread_pattern = [Lit (str ''thread_ts=''), Group digit_or_dot]"

text \<open>
  The result is the dictionary the function builds, or \<open>None\<close> where the function
  returns \<open>None\<close>. \<open>match.group(1)\<close> and \<open>match.group(2)\<close> are the two captures of
  \<open>url_pattern\<close>; a successful match always binds both (lemma \<open>url_pattern_groups\<close>).
\<close>

definition parse_slack_url :: "(nat \<Rightarrow> bool) \<Rightarrow> ustring \<Rightarrow> (string \<rightharpoonup> ustring) option" where
  "parse_slack_url nd url =
    (case re_match (url_pattern nd) url of
       None \<Rightarrow> None
     | Some gs \<Rightarrow>
         (let channel_id = gs ! 0;
              raw_ts = gs ! 1;
              message_ts = slice_upto raw_ts (- 6) @ str ''.'' @ slice_from raw_ts (- 6);
              result = [''channel_id'' \<mapsto> channel_id, ''message_ts'' \<mapsto> message_ts]
          in if contains (str ''thread_ts='') url
             then (case re_search thread_pattern url of
                     Some tg \<Rightarrow> Some (result(''thread_ts'' \<mapsto> tg ! 0))
                   | None \<Rightarrow> Some result)
             else Some result))"

text \<open>
  One block of the table of decimal digits, for closed examples: the full-width
  digits, U+FF10 to U+FF19. An example depends on the table only at the code points
  from 128 up that its URL holds.
\<close>

definition fullwidth_digit :: "nat \<Rightarrow> bool" where
  "fullwidth_digit n = (0xFF10 \<le> n \<and> n \<le> 0xFF19)"

section \<open>\<open>format_file_size\<close>\<close>

text \<open>Decimal digits of a natural number, as \<open>str\<close> prints them.\<close>

definition digit_char :: "nat \<Rightarrow> char" where
  "digit_char d = ''0123456789'' ! d"

fun show_nat :: "nat \<Rightarrow> string" where
  "show_nat n = (if n < 10 then [digit_char n] else show_nat (n div 10) @ [digit_char (n mod 10)])"

declare show_nat.simps [simp del]

text \<open>
  The function starts from a Python \<open>int\<close> and, from the first division on, works on
  a \<open>float\<close>. A finite double is modelled by its exact value, a rational number.

  The conversion of an \<open>int\<close> to a \<open>float\<close> rounds to 53 significant bits, ties to
  even: \<open>round53\<close>. An integer of magnitude below \<open>2 ^ 53\<close> is converted exactly.
\<close>

function bit_length :: "int \<Rightarrow> nat" where
  "bit_length n = (if n \<le> 0 then 0 else Suc (bit_length (n div 2)))"
  by pat_completeness auto
termination
  by (relation "measure nat") auto

declare bit_length.simps [simp del]

definition round53 :: "int \<Rightarrow> int" where
  "round53 n =
    (if \<bar>n\<bar> < 2 ^ 53 then n
     else
       (let sh = bit_length \<bar>n\<bar> - 53;
            q = \<bar>n\<bar> div 2 ^ sh;
            r = \<bar>n\<bar> mod 2 ^ sh;
            half = 2 ^ (sh - 1);
            q' = (if half < r \<or> (r = half \<and> odd q) then q + 1 else q)
        in sgn n * (q' * 2 ^ sh)))"

text \<open>
  \<open>float(n)\<close>, which the format specification \<open>.1f\<close> applies to an \<open>int\<close>: it raises
  \<open>OverflowError\<close> when the rounded value is not a finite double.
\<close>

definition float_of_int :: "int \<Rightarrow> error + rat" where
  "float_of_int n =
    (if 2 ^ 1024 \<le> \<bar>round53 n\<bar> then Inl OverflowError else Inr (of_int (round53 n)))"

text \<open>
  \<open>n / 1024\<close> on an \<open>int\<close>: the correctly rounded quotient. The divisor is a power
  of two, so the quotient is the rounded \<open>n\<close> scaled; it raises \<open>OverflowError\<close> when
  the quotient is not a finite double.
\<close>

definition int_truediv_1024 :: "int \<Rightarrow> error + rat" where
  "int_truediv_1024 n =
    (if 2 ^ 1034 \<le> \<bar>round53 n\<bar> then Inl OverflowError else Inr (of_int (round53 n) / 1024))"

text \<open>
  The format specification \<open>.1f\<close> on a \<open>float\<close>: the decimal numeral with one digit
  after the point that is nearest to the exact value of the double, ties to the even
  digit, with all the digits of the integer part.
\<close>

definition round_half_even :: "rat \<Rightarrow> int" where
  "round_half_even y =
    (let f = \<lfloor>y\<rfloor>; d = y - of_int f
     in if d < 1 / 2 then f else if 1 / 2 < d then f + 1 else if even f then f else f + 1)"

definition format_1f :: "rat \<Rightarrow> string" where
  "format_1f x =
    (let t = nat (round_half_even (\<bar>x\<bar> * 10))
     in (if x < 0 then ''-'' else '''') @ show_nat (t div 10) @ ''.'' @ show_nat (t mod 10))"

text \<open>
  The variable \<open>size_bytes\<close> holds an \<open>int\<close> on entry and a \<open>float\<close> after a
  division. Dividing a double that is at least 1024 by 1024 is exact.
\<close>

datatype pynum = PInt int | PFloat rat

fun lt_1024 :: "pynum \<Rightarrow> bool" where
  "lt_1024 (PInt n) = (n < 1024)"
| "lt_1024 (PFloat x) = (x < 1024)"

fun div_1024 :: "pynum \<Rightarrow> error + pynum" where
  "div_1024 (PInt n) = bind_err (int_truediv_1024 n) (\<lambda>x. Inr (PFloat x))"
| "div_1024 (PFloat x) = Inr (PFloat (x / 1024))"

fun fmt_1f :: "pynum \<Rightarrow> error + string" where
  "fmt_1f (PInt n) = bind_err (float_of_int n) (\<lambda>x. Inr (format_1f x))"
| "fmt_1f (PFloat x) = Inr (format_1f x)"

text \<open>The loop over the units, and the \<open>TB\<close> line that follows it.\<close>

fun size_loop :: "string list \<Rightarrow> pynum \<Rightarrow> error + string" where
  "size_loop [] v = bind_err (fmt_1f v) (\<lambda>s. Inr (s @ ''TB''))"
| "size_loop (unit # units) v =
    (if lt_1024 v then bind_err (fmt_1f v) (\<lambda>s. Inr (s @ unit))
     else bind_err (div_1024 v) (size_loop units))"

definition format_file_size :: "int \<Rightarrow> error + string" where
  "format_file_size size_bytes = size_loop [''B'', ''KB'', ''MB'', ''GB''] (PInt size_bytes)"



definition int_one_decimal :: "int \<Rightarrow> string" where
  "int_one_decimal n = (if n < 0 then ''-'' else '''') @ show_nat (nat \<bar>n\<bar>) @ ''.0''"

section \<open>Values read from the API\<close>

text \<open>
  \<open>json.loads\<close> returns a tree of Python values: \<open>None\<close>, \<open>bool\<close>, \<open>int\<close>, \<open>str\<close>,
  \<open>list\<close> and \<open>dict\<close> (keys in insertion order; the values of an object are owned by
  it alone, no two places of the tree share one). Numbers with a fraction or an
  exponent are outside this model.

  A text of the API, and the text the program prints, is a \<open>string\<close>: the bytes of
  its UTF-8 encoding. The program joins and prints such texts; where Python counts or
  steps through the characters of one, \<open>chars\<close> splits the bytes into characters, by
  the length that the first byte of each announces.
\<close>

definition utf8_width :: "char \<Rightarrow> nat" where
  "utf8_width c =
    (let n = of_char c :: nat
     in if n < 0xC0 then 1 else if n < 0xE0 then 2 else if n < 0xF0 then 3 else 4)"

function chars :: "string \<Rightarrow> string list" where
  "chars [] = []"
| "chars (c # cs) = take (utf8_width c) (c # cs) # chars (drop (utf8_width c) (c # cs))"
  by pat_completeness auto
termination
  by (relation "measure length") (auto simp: utf8_width_def Let_def)

datatype json =
    JNull
  | JBool bool
  | JInt int
  | JStr string
  | JList "json list"
  | JDict "(string \<times> json) list"

text \<open>The truth value of \<open>if x:\<close>.\<close>

fun truthy :: "json \<Rightarrow> bool" where
  "truthy JNull = False"
| "truthy (JBool b) = b"
| "truthy (JInt i) = (i \<noteq> 0)"
| "truthy (JStr s) = (s \<noteq> [])"
| "truthy (JList xs) = (xs \<noteq> [])"
| "truthy (JDict kvs) = (kvs \<noteq> [])"

text \<open>\<open>x.get(k, d)\<close>: only a \<open>dict\<close> has the method.\<close>

fun py_get :: "json \<Rightarrow> string \<Rightarrow> json \<Rightarrow> error + json" where
  "py_get (JDict kvs) k d = Inr (case map_of kvs k of Some v \<Rightarrow> v | None \<Rightarrow> d)"
| "py_get x k d = Inl AttributeError"

text \<open>\<open>x[k]\<close> with a string \<open>k\<close>.\<close>

fun py_getitem :: "json \<Rightarrow> string \<Rightarrow> error + json" where
  "py_getitem (JDict kvs) k = (case map_of kvs k of Some v \<Rightarrow> Inr v | None \<Rightarrow> Inl KeyError)"
| "py_getitem x k = Inl TypeError"

text \<open>
  \<open>x[k] = v\<close> with a string \<open>k\<close>: a key of the \<open>dict\<close> keeps its place, a new key
  goes last.
\<close>

fun dict_set :: "(string \<times> json) list \<Rightarrow> string \<Rightarrow> json \<Rightarrow> (string \<times> json) list" where
  "dict_set [] k v = [(k, v)]"
| "dict_set ((k', v') # kvs) k v =
    (if k' = k then (k, v) # kvs else (k', v') # dict_set kvs k v)"

fun py_setitem :: "json \<Rightarrow> string \<Rightarrow> json \<Rightarrow> error + json" where
  "py_setitem (JDict kvs) k v = Inr (JDict (dict_set kvs k v))"
| "py_setitem x k v = Inl TypeError"

text \<open>
  \<open>for x in v\<close>: the elements of a \<open>list\<close>, the keys of a \<open>dict\<close>, the characters of
  a \<open>str\<close>.
\<close>

fun py_iter :: "json \<Rightarrow> error + json list" where
  "py_iter (JList xs) = Inr xs"
| "py_iter (JDict kvs) = Inr (map (\<lambda>kv. JStr (fst kv)) kvs)"
| "py_iter (JStr s) = Inr (map JStr (chars s))"
| "py_iter x = Inl TypeError"

fun py_len :: "json \<Rightarrow> error + nat" where
  "py_len (JList xs) = Inr (length xs)"
| "py_len (JDict kvs) = Inr (length kvs)"
| "py_len (JStr s) = Inr (length (chars s))"
| "py_len x = Inl TypeError"

text \<open>A list comprehension whose element expression may raise.\<close>

fun map_err :: "('a \<Rightarrow> error + 'b) \<Rightarrow> 'a list \<Rightarrow> error + 'b list" where
  "map_err f [] = Inr []"
| "map_err f (x # xs) =
    bind_err (f x) (\<lambda>y. bind_err (map_err f xs) (\<lambda>ys. Inr (y # ys)))"

text \<open>\<open>sep.join(parts)\<close>.\<close>

fun join :: "string \<Rightarrow> string list \<Rightarrow> string" where
  "join sep [] = []"
| "join sep [p] = p"
| "join sep (p # q # ps) = p @ sep @ join sep (q # ps)"

text \<open>
  What the program takes from its environment: the local time of a timestamp
  (\<open>datetime.fromtimestamp(float(ts)).strftime(...)\<close>, \<open>None\<close> when that raises), the
  text \<open>str\<close> gives for a \<open>list\<close> or a \<open>dict\<close>, \<open>json.dumps\<close>, the authenticated
  download (\<open>SlackClient.download_file\<close>, which returns a \<open>bool\<close> or raises) and the
  message of an exception.
\<close>

record env =
  local_time :: "json \<Rightarrow> string option"
  repr_of :: "json \<Rightarrow> string"
  dumps :: "json \<Rightarrow> string"
  download_file :: "json \<Rightarrow> string \<Rightarrow> error + bool"
  exc_text :: "error \<Rightarrow> string"

definition show_int :: "int \<Rightarrow> string" where
  "show_int i = (if i < 0 then ''-'' else '''') @ show_nat (nat \<bar>i\<bar>)"

text \<open>The text an f-string puts for \<open>{x}\<close>.\<close>

fun py_str :: "env \<Rightarrow> json \<Rightarrow> string" where
  "py_str E JNull = ''None''"
| "py_str E (JBool b) = (if b then ''True'' else ''False'')"
| "py_str E (JInt i) = show_int i"
| "py_str E (JStr s) = s"
| "py_str E (JList xs) = repr_of E (JList xs)"
| "py_str E (JDict kvs) = repr_of E (JDict kvs)"

section \<open>\<open>extract_files_from_messages\<close>\<close>

text \<open>
  The function writes the two fields into each file \<open>dict\<close> in place and appends the
  same object to its result. The messages are a tree, so each file is written once and
  the model returns the updated copy.

  \<open>tag_files msg fs\<close> is the inner loop over the files of one message.
\<close>

fun tag_files :: "json \<Rightarrow> json list \<Rightarrow> error + json list" where
  "tag_files msg [] = Inr []"
| "tag_files msg (f # fs) =
    bind_err (py_get msg ''ts'' (JStr '''')) (\<lambda>ts.
    bind_err (py_setitem f ''_message_ts'' ts) (\<lambda>f1.
    bind_err (py_get msg ''user'' (JStr '''')) (\<lambda>user.
    bind_err (py_setitem f1 ''_message_user'' user) (\<lambda>f2.
    bind_err (tag_files msg fs) (\<lambda>rest.
    Inr (f2 # rest))))))"

fun extract_loop :: "json list \<Rightarrow> error + json list" where
  "extract_loop [] = Inr []"
| "extract_loop (msg # msgs) =
    bind_err (py_get msg ''files'' (JList [])) (\<lambda>msg_files.
    bind_err (py_iter msg_files) (\<lambda>fs.
    bind_err (tag_files msg fs) (\<lambda>tagged.
    bind_err (extract_loop msgs) (\<lambda>rest.
    Inr (tagged @ rest)))))"

definition extract_files_from_messages :: "json \<Rightarrow> error + json list" where
  "extract_files_from_messages messages = bind_err (py_iter messages) extract_loop"

text \<open>
  The specification's description of the extraction, to compare with the code: the
  file list of a message, and a file record with the two fields of its message added.
\<close>

definition field_or_empty :: "(string \<times> json) list \<Rightarrow> string \<Rightarrow> json" where
  "field_or_empty m k = (case map_of m k of Some v \<Rightarrow> v | None \<Rightarrow> JStr '''')"

definition files_of :: "(string \<times> json) list \<Rightarrow> (string \<times> json) list list" where
  "files_of m =
    (case map_of m ''files'' of
       Some (JList fs) \<Rightarrow> concat (map (\<lambda>f. case f of JDict kvs \<Rightarrow> [kvs] | _ \<Rightarrow> []) fs)
     | _ \<Rightarrow> [])"

definition with_owner :: "(string \<times> json) list \<Rightarrow> (string \<times> json) list \<Rightarrow> json" where
  "with_owner m f =
    JDict (dict_set (dict_set f ''_message_ts'' (field_or_empty m ''ts''))
             ''_message_user'' (field_or_empty m ''user''))"

text \<open>
  A message of the data model: a \<open>dict\<close> whose \<open>files\<close> field, when present, is a
  list of \<open>dict\<close>s.
\<close>

fun is_dict :: "json \<Rightarrow> bool" where
  "is_dict (JDict kvs) = True"
| "is_dict x = False"

definition message_files_ok :: "(string \<times> json) list \<Rightarrow> bool" where
  "message_files_ok m =
    (case map_of m ''files'' of
       None \<Rightarrow> True
     | Some (JList fs) \<Rightarrow> list_all is_dict fs
     | Some x \<Rightarrow> False)"

section \<open>\<open>format_message\<close> and \<open>format_file_info\<close>\<close>

text \<open>The three emoji of the program's output, as their UTF-8 bytes.\<close>

definition paperclip :: string where
  "paperclip = [CHR 0xF0, CHR 0x9F, CHR 0x93, CHR 0x8E]"

definition padlock :: string where
  "padlock = [CHR 0xF0, CHR 0x9F, CHR 0x94, CHR 0x92]"

definition loudspeaker :: string where
  "loudspeaker = [CHR 0xF0, CHR 0x9F, CHR 0x93, CHR 0xA2]"

text \<open>
  \<open>users_cache.get(user_id, user_id)\<close> on a \<open>dict\<close> with string keys and string
  values: a \<open>list\<close> or a \<open>dict\<close> cannot be hashed, and no other value equals a string
  key.
\<close>

fun cache_get :: "(string \<times> string) list \<Rightarrow> json \<Rightarrow> error + json" where
  "cache_get c (JStr s) = Inr (case map_of c s of Some n \<Rightarrow> JStr n | None \<Rightarrow> JStr s)"
| "cache_get c (JList xs) = Inl TypeError"
| "cache_get c (JDict kvs) = Inl TypeError"
| "cache_get c x = Inr x"

text \<open>
  The first two lines of \<open>format_message\<close>. \<open>users_cache\<close> is \<open>None\<close> (the default)
  or a \<open>dict\<close>; the empty \<open>dict\<close> is false as a condition.
\<close>

definition display_name :: "json \<Rightarrow> (string \<times> string) list option \<Rightarrow> error + json" where
  "display_name msg users_cache =
    bind_err (py_get msg ''bot_id'' (JStr ''unknown'')) (\<lambda>bot_id.
    bind_err (py_get msg ''user'' bot_id) (\<lambda>user_id.
    (case users_cache of
       None \<Rightarrow> Inr user_id
     | Some c \<Rightarrow> if c = [] then Inr user_id else cache_get c user_id)))"

definition time_str :: "env \<Rightarrow> json \<Rightarrow> json" where
  "time_str E ts =
    (if truthy ts then (case local_time E ts of Some t \<Rightarrow> JStr t | None \<Rightarrow> ts)
     else JStr ''unknown'')"

definition reaction_part :: "env \<Rightarrow> json \<Rightarrow> error + string" where
  "reaction_part E r =
    bind_err (py_getitem r ''name'') (\<lambda>name.
    bind_err (py_getitem r ''count'') (\<lambda>count.
    Inr ('':'' @ py_str E name @ '': ('' @ py_str E count @ '')'')))"

definition file_part :: "env \<Rightarrow> json \<Rightarrow> error + string" where
  "file_part E f =
    bind_err (py_get f ''name'' (JStr ''unnamed'')) (\<lambda>name.
    Inr (paperclip @ '' '' @ py_str E name))"

definition format_message ::
  "env \<Rightarrow> json \<Rightarrow> (string \<times> string) list option \<Rightarrow> error + string" where
  "format_message E msg users_cache =
    bind_err (display_name msg users_cache) (\<lambda>user_name.
    bind_err (py_get msg ''ts'' (JStr '''')) (\<lambda>ts.
    bind_err (py_get msg ''text'' (JStr '''')) (\<lambda>text.
    bind_err (py_get msg ''reactions'' (JList [])) (\<lambda>reactions.
    bind_err
      (if truthy reactions
       then bind_err (py_iter reactions) (\<lambda>rs.
            bind_err (map_err (reaction_part E) rs) (\<lambda>reaction_parts.
            Inr (''\<newline>  Reactions: '' @ join '' '' reaction_parts)))
       else Inr '''') (\<lambda>reaction_str.
    bind_err (py_get msg ''files'' (JList [])) (\<lambda>files.
    bind_err
      (if truthy files
       then bind_err (py_iter files) (\<lambda>fs.
            bind_err (map_err (file_part E) fs) (\<lambda>file_parts.
            Inr (''\<newline>  Files: '' @ join '', '' file_parts)))
       else Inr '''') (\<lambda>files_str.
    Inr (''['' @ py_str E (time_str E ts) @ ''] '' @ py_str E user_name @ '':\<newline>  ''
         @ py_str E text @ reaction_str @ files_str))))))))"

text \<open>
  The specification's description of the author's name, to compare with the code: the
  raw id is the \<open>user\<close> field, else the \<open>bot_id\<close> field, else \<open>unknown\<close>; a cache
  that holds the id gives the name.
\<close>

definition raw_id :: "(string \<times> json) list \<Rightarrow> json" where
  "raw_id m =
    (case map_of m ''user'' of
       Some u \<Rightarrow> u
     | None \<Rightarrow> (case map_of m ''bot_id'' of Some b \<Rightarrow> b | None \<Rightarrow> JStr ''unknown''))"

definition author_name :: "string \<Rightarrow> (string \<times> string) list option \<Rightarrow> string" where
  "author_name uid users_cache =
    (case users_cache of
       None \<Rightarrow> uid
     | Some c \<Rightarrow> (case map_of c uid of Some n \<Rightarrow> n | None \<Rightarrow> uid))"

text \<open>
  \<open>format_file_size\<close> on a value of the API: a \<open>bool\<close> is an \<open>int\<close>; the comparison
  with 1024 raises \<open>TypeError\<close> on any other value that is not an \<open>int\<close>.
\<close>

fun format_size_of :: "json \<Rightarrow> error + string" where
  "format_size_of (JInt n) = format_file_size n"
| "format_size_of (JBool b) = format_file_size (if b then 1 else 0)"
| "format_size_of x = Inl TypeError"

definition format_file_info :: "env \<Rightarrow> json \<Rightarrow> bool \<Rightarrow> error + string" where
  "format_file_info E f verbose =
    bind_err (py_get f ''name'' (JStr ''unnamed'')) (\<lambda>name.
    bind_err (py_get f ''size'' (JInt 0)) (\<lambda>size_bytes.
    bind_err (format_size_of size_bytes) (\<lambda>size.
    bind_err (py_get f ''filetype'' (JStr ''unknown'')) (\<lambda>filetype.
    bind_err (py_get f ''url_private_download'' JNull) (\<lambda>direct.
    bind_err (if truthy direct then Inr direct else py_get f ''url_private'' (JStr '''')) (\<lambda>url.
    bind_err (py_get f ''permalink'' (JStr '''')) (\<lambda>permalink.
    if verbose
    then Inr (''  '' @ paperclip @ '' '' @ py_str E name @ ''\<newline>''
              @ ''     Type: '' @ py_str E filetype @ '' | Size: '' @ size @ ''\<newline>''
              @ ''     Download: '' @ py_str E url @ ''\<newline>''
              @ ''     Permalink: '' @ py_str E permalink)
    else Inr (''  '' @ paperclip @ '' '' @ py_str E name @ '' ('' @ py_str E filetype
              @ '', '' @ size @ '')''))))))))"

section \<open>The output stage of \<open>main\<close>\<close>

text \<open>
  What a run does, in order: text written to standard output (\<open>print\<close> adds the
  newline, or the \<open>end\<close> it is given) or to standard error, a directory created, a
  download asked of the client. A computation returns the events so far with its
  value or the exception that ended it. Failures of the operating system while
  printing or creating the directory, and the interrupt signal, are outside this model.
\<close>

datatype event =
    Stdout string
  | Stderr string
  | Mkdir string
  | Download json string

type_synonym 'a run = "event list \<times> (error + 'a)"

definition emit :: "event \<Rightarrow> unit run" where
  "emit e = ([e], Inr ())"

definition lift :: "error + 'a \<Rightarrow> 'a run" where
  "lift r = ([], r)"

definition bind :: "'a run \<Rightarrow> ('a \<Rightarrow> 'b run) \<Rightarrow> 'b run" where
  "bind m f =
    (case m of
       (es, Inl e) \<Rightarrow> (es, Inl e)
     | (es, Inr x) \<Rightarrow> (case f x of (es', r) \<Rightarrow> (es @ es', r)))"

text \<open>A \<open>for\<close> loop whose body returns nothing.\<close>

fun for_each :: "('a \<Rightarrow> unit run) \<Rightarrow> 'a list \<Rightarrow> unit run" where
  "for_each body [] = ([], Inr ())"
| "for_each body (x # xs) = bind (body x) (\<lambda>_. for_each body xs)"

definition print :: "string \<Rightarrow> unit run" where
  "print s = emit (Stdout (s @ ''\<newline>''))"

text \<open>The flags of the command line that the output stage reads.\<close>

record args =
  json_flag :: bool
  list_files :: bool
  download_files :: bool
  verbose :: bool
  search :: "string option"
  output_dir :: string

text \<open>\<open>os.path.join(a, b)\<close> of \<open>posixpath\<close>, \<open>a\<close> a string.\<close>

fun path_join :: "string \<Rightarrow> json \<Rightarrow> error + string" where
  "path_join a (JStr b) =
    Inr (if take 1 b = ''/'' then b
         else if a = [] \<or> last a = CHR ''/'' then a @ b
         else a @ ''/'' @ b)"
| "path_join a x = Inl TypeError"

text \<open>Lines 469 to 471: the check of the envelope.\<close>

definition check_ok :: "env \<Rightarrow> json \<Rightarrow> unit run" where
  "check_ok E result =
    bind (lift (py_get result ''ok'' JNull)) (\<lambda>ok.
    if truthy ok then ([], Inr ())
    else bind (lift (py_get result ''error'' (JStr ''Unknown error''))) (\<lambda>err.
         bind (emit (Stderr (''Error: '' @ py_str E err @ ''\<newline>''))) (\<lambda>_.
         lift (Inl (SystemExit 1)))))"

text \<open>Lines 489 to 499: the loop over the files, with the count of successes.\<close>

fun download_loop :: "env \<Rightarrow> string \<Rightarrow> json list \<Rightarrow> nat \<Rightarrow> nat run" where
  "download_loop E dir [] success = ([], Inr success)"
| "download_loop E dir (f # fs) success =
    bind (lift (py_get f ''url_private_download'' JNull)) (\<lambda>direct.
    bind (lift (if truthy direct then Inr direct else py_get f ''url_private'' JNull)) (\<lambda>url.
    bind (lift (py_get f ''name'' (JStr ''unnamed''))) (\<lambda>name.
    if truthy url
    then bind (lift (path_join dir name)) (\<lambda>output_path.
         bind (emit (Stdout (''  Downloading: '' @ py_str E name @ ''...'' @ '' ''))) (\<lambda>_.
         bind (emit (Download url output_path)) (\<lambda>_.
         bind (lift (download_file E url output_path)) (\<lambda>ok.
         if ok then bind (print ''OK'') (\<lambda>_. download_loop E dir fs (success + 1))
         else bind (print ''FAILED'') (\<lambda>_. download_loop E dir fs success)))))
    else download_loop E dir fs success)))"

text \<open>Lines 486 to 500: the batch, from its heading to its summary.\<close>

definition download_batch :: "env \<Rightarrow> string \<Rightarrow> json list \<Rightarrow> unit run" where
  "download_batch E dir files =
    bind (print (''\<newline>Downloading to: '' @ dir)) (\<lambda>_.
    bind (emit (Mkdir dir)) (\<lambda>_.
    bind (download_loop E dir files 0) (\<lambda>success.
    print (''\<newline>Downloaded '' @ show_nat success @ ''/'' @ show_nat (length files)
           @ '' files.''))))"

text \<open>Lines 482 and 483: the numbered list of the files.\<close>

fun list_loop :: "env \<Rightarrow> bool \<Rightarrow> nat \<Rightarrow> json list \<Rightarrow> unit run" where
  "list_loop E v i [] = ([], Inr ())"
| "list_loop E v i (f # fs) =
    bind (lift (format_file_info E f v)) (\<lambda>info.
    bind (print (show_nat i @ ''. '' @ info)) (\<lambda>_.
    list_loop E v (i + 1) fs))"

text \<open>Lines 477 to 500.\<close>

definition show_files :: "env \<Rightarrow> args \<Rightarrow> json \<Rightarrow> unit run" where
  "show_files E a messages =
    bind (lift (extract_files_from_messages messages)) (\<lambda>files.
    if files = [] then print ''No files found in messages.''
    else bind (print (''Found '' @ show_nat (length files) @ '' file(s):\<newline>'')) (\<lambda>_.
         bind (list_loop E (verbose a) 1 files) (\<lambda>_.
         if download_files a then download_batch E (output_dir a) files
         else ([], Inr ()))))"

text \<open>Lines 502 to 505 and 513 to 516: a heading and the messages, each with a rule.\<close>

definition show_messages :: "env \<Rightarrow> string \<Rightarrow> json \<Rightarrow> unit run" where
  "show_messages E noun messages =
    bind (lift (py_len messages)) (\<lambda>n.
    bind (print (''Found '' @ show_nat n @ '' '' @ noun @ '':\<newline>'')) (\<lambda>_.
    bind (lift (py_iter messages)) (\<lambda>msgs.
    for_each (\<lambda>msg.
      bind (lift (format_message E msg None)) (\<lambda>line.
      bind (print line) (\<lambda>_.
      print (replicate 60 (CHR ''-''))))) msgs)))"

text \<open>Lines 508 to 516: the matches of a search.\<close>

definition show_search :: "env \<Rightarrow> json \<Rightarrow> unit run" where
  "show_search E result =
    bind (lift (py_get result ''messages'' (JDict []))) (\<lambda>search_data.
    if is_dict search_data
    then bind (lift (py_get search_data ''matches'' (JList []))) (\<lambda>search_messages.
         if truthy search_messages then show_messages E ''match(es)'' search_messages
         else ([], Inr ()))
    else ([], Inr ()))"

text \<open>Lines 519 to 527.\<close>

definition channel_line :: "env \<Rightarrow> json \<Rightarrow> unit run" where
  "channel_line E ch =
    bind (lift (py_get ch ''name'' (JStr ''unnamed''))) (\<lambda>name.
    bind (lift (py_get ch ''id'' (JStr ''''))) (\<lambda>ch_id.
    bind (lift (py_get ch ''is_private'' JNull)) (\<lambda>private.
    bind (lift (py_get ch ''num_members'' (JInt 0))) (\<lambda>members.
    print ((if truthy private then padlock else loudspeaker) @ '' #'' @ py_str E name
           @ '' ('' @ py_str E ch_id @ '') - '' @ py_str E members @ '' members'')))))"

definition show_channels :: "env \<Rightarrow> json \<Rightarrow> unit run" where
  "show_channels E result =
    bind (lift (py_get result ''channels'' (JList []))) (\<lambda>channels.
    if truthy channels
    then bind (lift (py_len channels)) (\<lambda>n.
         bind (print (''Found '' @ show_nat n @ '' channel(s):\<newline>'')) (\<lambda>_.
         bind (lift (py_iter channels)) (for_each (channel_line E))))
    else ([], Inr ()))"

text \<open>Lines 530 to 535.\<close>

definition show_user :: "env \<Rightarrow> json \<Rightarrow> unit run" where
  "show_user E result =
    bind (lift (py_get result ''user'' (JDict []))) (\<lambda>user.
    if truthy user
    then bind (lift (py_get user ''name'' (JStr ''unknown''))) (\<lambda>name.
         bind (lift (py_get user ''real_name'' name)) (\<lambda>real_name.
         bind (print (''User: '' @ py_str E real_name)) (\<lambda>_.
         bind (lift (py_get user ''id'' JNull)) (\<lambda>uid.
         bind (print (''  ID: '' @ py_str E uid)) (\<lambda>_.
         bind (lift (py_get user ''profile'' (JDict []))) (\<lambda>profile.
         bind (lift (py_get profile ''email'' (JStr ''N/A''))) (\<lambda>email.
         bind (print (''  Email: '' @ py_str E email)) (\<lambda>_.
         bind (lift (py_get user ''profile'' (JDict []))) (\<lambda>profile'.
         bind (lift (py_get profile' ''title'' (JStr ''N/A''))) (\<lambda>title.
         print (''  Title: '' @ py_str E title)))))))))))
    else ([], Inr ()))"

text \<open>Lines 538 to 543.\<close>

definition show_channel :: "env \<Rightarrow> json \<Rightarrow> unit run" where
  "show_channel E result =
    bind (lift (py_get result ''channel'' (JDict []))) (\<lambda>channel.
    if truthy channel
    then bind (lift (py_get channel ''name'' (JStr ''unnamed''))) (\<lambda>name.
         bind (print (''Channel: #'' @ py_str E name)) (\<lambda>_.
         bind (lift (py_get channel ''id'' JNull)) (\<lambda>cid.
         bind (print (''  ID: '' @ py_str E cid)) (\<lambda>_.
         bind (lift (py_get channel ''topic'' (JDict []))) (\<lambda>topic.
         bind (lift (py_get topic ''value'' (JStr ''N/A''))) (\<lambda>topic_value.
         bind (print (''  Topic: '' @ py_str E topic_value)) (\<lambda>_.
         bind (lift (py_get channel ''purpose'' (JDict []))) (\<lambda>purpose.
         bind (lift (py_get purpose ''value'' (JStr ''N/A''))) (\<lambda>purpose_value.
         print (''  Purpose: '' @ py_str E purpose_value))))))))))
    else ([], Inr ()))"

text \<open>
  Lines 464 to 543: what \<open>main\<close> does with the response. \<open>args.search\<close> is true as a
  condition when a non-empty query was given.
\<close>

definition present :: "env \<Rightarrow> args \<Rightarrow> json \<Rightarrow> unit run" where
  "present E a result =
    (if truthy result
     then if json_flag a then print (dumps E result)
          else bind (check_ok E result) (\<lambda>_.
               bind (lift (py_get result ''messages'' (JList []))) (\<lambda>messages.
               bind (if list_files a \<or> download_files a then show_files E a messages
                     else if truthy messages then show_messages E ''message(s)'' messages
                     else ([], Inr ())) (\<lambda>_.
               bind (case search a of
                       None \<Rightarrow> ([], Inr ())
                     | Some q \<Rightarrow> if q = [] then ([], Inr ()) else show_search E result) (\<lambda>_.
               bind (show_channels E result) (\<lambda>_.
               bind (show_user E result) (\<lambda>_.
               show_channel E result))))))
     else ([], Inr ()))"

text \<open>
  The handlers around the stage and the end of the process: \<open>sys.exit\<close> passes
  through \<open>except Exception\<close>, any other exception is reported and the status is 1,
  and a run that reaches the end has status 0. The result is the events and the exit
  status.
\<close>

definition main_output :: "env \<Rightarrow> args \<Rightarrow> json \<Rightarrow> event list \<times> nat" where
  "main_output E a result =
    (case present E a result of
       (es, Inr u) \<Rightarrow> (es, 0)
     | (es, Inl (SystemExit c)) \<Rightarrow> (es, c)
     | (es, Inl e) \<Rightarrow> (es @ [Stderr (''Error: '' @ exc_text E e @ ''\<newline>'')], 1))"

text \<open>
  An environment for closed examples: no local time is known, compound values print
  as nothing, and every download succeeds.
\<close>

definition quiet_env :: env where
  "quiet_env =
    \<lparr>local_time = (\<lambda>ts. None), repr_of = (\<lambda>x. ''''), dumps = (\<lambda>x. ''''),
     download_file = (\<lambda>url path. Inr True), exc_text = (\<lambda>e. '''')\<rparr>"

section \<open>Properties of the matcher\<close>

lemma try_down_top: "0 < n \<Longrightarrow> f n = Some r \<Longrightarrow> try_down f n = Some r"
  by (cases n) simp_all

lemma try_down_skip:
  "m \<le> n \<Longrightarrow> (\<And>k. m < k \<Longrightarrow> k \<le> n \<Longrightarrow> f k = None) \<Longrightarrow> try_down f n = try_down f m"
proof (induction n)
  case 0
  then show ?case by simp
next
  case (Suc n)
  show ?case
  proof (cases "m = Suc n")
    case True
    then show ?thesis by simp
  next
    case False
    with Suc.prems have le: "m \<le> n" by simp
    have "f (Suc n) = None" using Suc.prems(2) [of "Suc n"] le by simp
    moreover have "try_down f n = try_down f m"
      using Suc.IH [OF le] Suc.prems(2) by simp
    ultimately show ?thesis by simp
  qed
qed

lemma takeWhile_run:
  "\<forall>c \<in> set x. p c \<Longrightarrow> y = [] \<or> \<not> p (hd y) \<Longrightarrow> takeWhile p (x @ y) = x"
  by (cases y) (simp_all add: takeWhile_append2)

lemma group_last:
  assumes "x \<noteq> []" and "\<forall>c \<in> set x. p c" and "y = [] \<or> \<not> p (hd y)"
  shows "rmatch [Group p] (x @ y) = Some ([x], y)"
proof -
  have "takeWhile p (x @ y) = x" using assms(2,3) by (rule takeWhile_run)
  then show ?thesis using assms(1) by (simp add: try_down_top)
qed

lemma group_then:
  assumes "x \<noteq> []" and "\<forall>c \<in> set x. p c" and "y = [] \<or> \<not> p (hd y)"
    and "rmatch as y = Some (gs, r)"
  shows "rmatch (Group p # as) (x @ y) = Some (x # gs, r)"
proof -
  have "takeWhile p (x @ y) = x" using assms(2,3) by (rule takeWhile_run)
  then show ?thesis using assms(1,4) by (simp add: try_down_top)
qed

lemma lit_then:
  "rmatch (Lit l # as) (l @ y) = rmatch as y"
  by simp

lemma host_tail_mismatch:
  assumes "1 \<le> j" and "j \<le> 10"
  shows "rmatch (Lit (str ''.slack.com/archives/'') # as)
           (drop j (str ''.slack.com/archives/'' @ X)) = None"
proof -
  have "j = 1 \<or> j = 2 \<or> j = 3 \<or> j = 4 \<or> j = 5 \<or> j = 6 \<or> j = 7 \<or> j = 8 \<or> j = 9 \<or> j = 10"
    using assms by arith
  then show ?thesis
    by (elim disjE) (simp_all add: str_def)
qed

lemma host_then:
  assumes sub: "sub \<noteq> []" "Ascii (CHR ''/'') \<notin> set sub"
    and rest: "rmatch as y = Some res"
  shows "rmatch (Plus not_slash # Lit (str ''.slack.com/archives/'') # as)
           (sub @ str ''.slack.com/archives/'' @ y) = Some res"
proof -
  let ?s = "sub @ str ''.slack.com/archives/'' @ y"
  let ?f = "\<lambda>k. rmatch (Lit (str ''.slack.com/archives/'') # as) (drop k ?s)"
  have split: "?s = (sub @ str ''.slack.com'') @ (str ''/archives/'' @ y)"
    by (simp add: str_def)
  have "takeWhile not_slash ?s = sub @ str ''.slack.com''"
    unfolding split using sub(2) by (intro takeWhile_run) (auto simp: not_slash_def str_def)
  then have len: "length (takeWhile not_slash ?s) = length sub + 10" by (simp add: str_def)
  have none: "?f k = None" if "length sub < k" "k \<le> length sub + 10" for k
  proof -
    define j where "j = k - length sub"
    have j: "1 \<le> j" "j \<le> 10" "k = length sub + j" using that by (simp_all add: j_def)
    have "drop k ?s = drop j (str ''.slack.com/archives/'' @ y)" using j(3) by simp
    then show ?thesis using host_tail_mismatch [OF j(1,2), of as y] by (simp only:)
  qed
  have "try_down ?f (length sub + 10) = try_down ?f (length sub)"
  proof (rule try_down_skip)
    show "length sub \<le> length sub + 10" by simp
  next
    fix k assume "length sub < k" "k \<le> length sub + 10"
    then show "?f k = None" by (rule none)
  qed
  also have "\<dots> = Some res"
    by (rule try_down_top) (use sub(1) rest in simp_all)
  finally show ?thesis using len by simp
qed

lemma url_pattern_match:
  assumes "sub \<noteq> []" "Ascii (CHR ''/'') \<notin> set sub"
    and "chan \<noteq> []" "\<forall>c \<in> set chan. upper_or_digit c"
    and "ds \<noteq> []" "\<forall>c \<in> set ds. decimal nd c"
    and "rest = [] \<or> \<not> decimal nd (hd rest)"
  shows "rmatch (url_pattern nd)
           (str ''https://'' @ sub @ str ''.slack.com/archives/'' @ chan @ str ''/p'' @ ds @ rest)
         = Some ([chan, ds], rest)"
proof -
  have d: "rmatch [Group (decimal nd)] (ds @ rest) = Some ([ds], rest)"
    using assms(5-7) by (rule group_last)
  have p: "rmatch [Lit (str ''/p''), Group (decimal nd)] (str ''/p'' @ ds @ rest)
           = Some ([ds], rest)"
    using d by (simp only: lit_then)
  have c: "rmatch [Group upper_or_digit, Lit (str ''/p''), Group (decimal nd)]
             (chan @ str ''/p'' @ ds @ rest) = Some ([chan, ds], rest)"
    by (rule group_then [OF assms(3,4) _ p]) (simp add: upper_or_digit_def str_def)
  have h: "rmatch [Plus not_slash, Lit (str ''.slack.com/archives/''), Group upper_or_digit,
                   Lit (str ''/p''), Group (decimal nd)]
            (sub @ str ''.slack.com/archives/'' @ chan @ str ''/p'' @ ds @ rest)
           = Some ([chan, ds], rest)"
    by (rule host_then [OF assms(1,2) c])
  show ?thesis unfolding url_pattern_def using h by (simp only: lit_then)
qed

lemma try_down_SomeD: "try_down f n = Some r \<Longrightarrow> \<exists>k. 0 < k \<and> k \<le> n \<and> f k = Some r"
proof (induction n)
  case 0
  then show ?case by simp
next
  case (Suc n)
  show ?case
  proof (cases "f (Suc n)")
    case None
    with Suc.prems have "try_down f n = Some r" by simp
    from Suc.IH [OF this] show ?thesis by auto
  next
    case (Some a)
    with Suc.prems show ?thesis by auto
  qed
qed

lemma url_pattern_groups:
  assumes "rmatch (url_pattern nd) s = Some (gs, r)"
  shows "length gs = 2"
  using assms
  by (auto simp: url_pattern_def dest!: try_down_SomeD split: if_splits option.splits)

lemma lit_mismatch: "take (length l) s \<noteq> l \<Longrightarrow> rmatch (Lit l # as) s = None"
  by simp

lemma prefix_mismatch:
  assumes "pre \<noteq> []" and "c \<notin> set pre" and "c \<notin> set l"
  shows "take (length (l @ [c])) (pre @ (l @ [c]) @ X) \<noteq> l @ [c]"
proof
  let ?n = "length (l @ [c])"
  assume eq: "take ?n (pre @ (l @ [c]) @ X) = l @ [c]"
  have "?n - length pre \<le> length l" using assms(1) by (cases pre) simp_all
  then have "take ?n (pre @ (l @ [c]) @ X) = take ?n pre @ take (?n - length pre) l"
    by simp
  moreover have "set (take ?n pre) \<subseteq> set pre" by (rule set_take_subset)
  moreover have "set (take (?n - length pre) l) \<subseteq> set l" by (rule set_take_subset)
  ultimately have "c \<notin> set (take ?n (pre @ (l @ [c]) @ X))"
    using assms(2,3) by auto
  then show False unfolding eq by simp
qed

lemma thread_prefix_mismatch:
  assumes "pre \<noteq> []" and "Ascii (CHR ''='') \<notin> set pre"
  shows "rmatch (Lit (str ''thread_ts='') # as) (pre @ str ''thread_ts='' @ X) = None"
proof (rule lit_mismatch)
  have "Ascii (CHR ''='') \<notin> set (str ''thread_ts'')" by (simp add: str_def)
  from prefix_mismatch [OF assms this, of X]
  show "take (length (str ''thread_ts='')) (pre @ str ''thread_ts='' @ X) \<noteq> str ''thread_ts=''"
    by (simp add: str_def)
qed

lemma thread_search:
  assumes "Ascii (CHR ''='') \<notin> set pre" and "ts \<noteq> []" and "\<forall>c \<in> set ts. digit_or_dot c"
    and "rest = [] \<or> \<not> digit_or_dot (hd rest)"
  shows "re_search thread_pattern (pre @ str ''thread_ts='' @ ts @ rest) = Some [ts]"
  using assms(1)
proof (induction pre)
  case Nil
  have "rmatch [Group digit_or_dot] (ts @ rest) = Some ([ts], rest)"
    using assms(2-4) by (rule group_last)
  then have "rmatch thread_pattern (str ''thread_ts='' @ ts @ rest) = Some ([ts], rest)"
    unfolding thread_pattern_def by (simp only: lit_then)
  then have "re_match thread_pattern (str ''thread_ts='' @ ts @ rest) = Some [ts]"
    by (simp add: re_match_def)
  then show ?case by (cases "str ''thread_ts='' @ ts @ rest") simp_all
next
  case (Cons c pre)
  have "rmatch thread_pattern ((c # pre) @ str ''thread_ts='' @ ts @ rest) = None"
    unfolding thread_pattern_def
    by (rule thread_prefix_mismatch) (use Cons.prems in simp_all)
  then have "re_match thread_pattern (c # (pre @ str ''thread_ts='' @ ts @ rest)) = None"
    by (simp add: re_match_def)
  moreover have "re_search thread_pattern (pre @ str ''thread_ts='' @ ts @ rest) = Some [ts]"
    using Cons by simp
  ultimately show ?case by simp
qed

lemma contains_prefix: "take (length sub) s = sub \<Longrightarrow> contains sub s"
  by (cases s) auto

lemma contains_append: "contains sub (pre @ sub @ post)"
proof (induction pre)
  case Nil
  show ?case by (rule contains_prefix) simp
next
  case (Cons c pre)
  then show ?case by simp
qed

lemma slice_short: "length s \<le> 6 \<Longrightarrow> slice_upto s (- 6) = [] \<and> slice_from s (- 6) = s"
  by (simp add: slice_upto_def slice_from_def slice_bound_def)

lemma slice_split: "length fp = 6 \<Longrightarrow> slice_upto (ip @ fp) (- 6) = ip \<and> slice_from (ip @ fp) (- 6) = fp"
  by (simp add: slice_upto_def slice_from_def slice_bound_def)

section \<open>Properties of \<open>parse_slack_url\<close>\<close>

lemma eq_not_upper_or_digit: "\<not> upper_or_digit (Ascii (CHR ''=''))"
  by (simp add: upper_or_digit_def str_def)

lemma eq_not_decimal: "\<not> decimal nd (Ascii (CHR ''=''))"
  by simp

lemma parse_permalink:
  assumes "sub \<noteq> []" "Ascii (CHR ''/'') \<notin> set sub"
    and "chan \<noteq> []" "\<forall>c \<in> set chan. upper_or_digit c"
    and "ds \<noteq> []" "\<forall>c \<in> set ds. decimal nd c"
    and "rest = [] \<or> \<not> decimal nd (hd rest)"
  shows "\<exists>m. parse_slack_url nd
           (str ''https://'' @ sub @ str ''.slack.com/archives/'' @ chan @ str ''/p'' @ ds @ rest)
           = Some m
         \<and> m ''channel_id'' = Some chan
         \<and> m ''message_ts'' = Some (slice_upto ds (- 6) @ str ''.'' @ slice_from ds (- 6))"
proof -
  let ?url = "str ''https://'' @ sub @ str ''.slack.com/archives/'' @ chan @ str ''/p'' @ ds @ rest"
  have "rmatch (url_pattern nd) ?url = Some ([chan, ds], rest)"
    by (rule url_pattern_match [OF assms])
  then have "re_match (url_pattern nd) ?url = Some [chan, ds]"
    by (simp only: re_match_def option.case prod.case)
  then show ?thesis
    by (simp add: parse_slack_url_def Let_def split: option.split)
qed

text \<open>
  Claim C1, as the code has it. The code has no \<open>MalformedTimestamp\<close> failure: the
  pattern accepts a digit run of any length from one digit on, and the only failure of
  \<open>parse_slack_url\<close> is \<open>None\<close> for a string that does not match. For a permalink
  whose digit run has fewer than 7 digits the function returns a result; its
  \<open>channel_id\<close> is the channel of the link and its \<open>message_ts\<close> is a decimal point
  followed by the whole digit run: the integer part is empty (and there is no sign).
  The digit run is the whole of what \<open>\d+\<close> takes: the link ends after it, or goes on
  with a character that is not a decimal digit, of ASCII or of another script.
\<close>

theorem short_digit_run_is_accepted:
  assumes "sub \<noteq> []" "Ascii (CHR ''/'') \<notin> set sub"
    and "chan \<noteq> []" "\<forall>c \<in> set chan. upper_or_digit c"
    and "ds \<noteq> []" "\<forall>c \<in> set ds. decimal nd c" "length ds < 7"
    and "rest = [] \<or> \<not> decimal nd (hd rest)"
  shows "\<exists>m. parse_slack_url nd
           (str ''https://'' @ sub @ str ''.slack.com/archives/'' @ chan @ str ''/p'' @ ds @ rest)
           = Some m
         \<and> m ''channel_id'' = Some chan
         \<and> m ''message_ts'' = Some (str ''.'' @ ds)"
proof -
  have "length ds \<le> 6" using assms(7) by simp
  then have "slice_upto ds (- 6) = [] \<and> slice_from ds (- 6) = ds" by (rule slice_short)
  then show ?thesis
    using parse_permalink [OF assms(1-6) assms(8)] by simp
qed

text \<open>
  The theorem at a five-digit run, and at a run of five ASCII digits and the full-width
  digit one (U+FF11), which \<open>\d+\<close> takes with them.
\<close>

theorem short_digit_run_is_accepted_witness:
  "(\<exists>m. parse_slack_url fullwidth_digit (str ''https://a.slack.com/archives/C1/p12345'') = Some m
      \<and> m ''channel_id'' = Some (str ''C1'') \<and> m ''message_ts'' = Some (str ''.12345''))
   \<and> (\<exists>m. parse_slack_url fullwidth_digit
            (str ''https://a.slack.com/archives/C1/p12345'' @ [Wide 0xFF11]) = Some m
      \<and> m ''channel_id'' = Some (str ''C1'')
      \<and> m ''message_ts'' = Some (str ''.12345'' @ [Wide 0xFF11]))"
  using short_digit_run_is_accepted
      [of "str ''a''" "str ''C1''" "str ''12345''" fullwidth_digit "[]"]
    short_digit_run_is_accepted
      [of "str ''a''" "str ''C1''" "str ''12345'' @ [Wide 0xFF11]" fullwidth_digit "[]"]
  by (simp add: upper_or_digit_def fullwidth_digit_def str_def)

text \<open>
  Claim C1 as the specification states it fails at the permalink
  \<^verbatim>\<open>https://a.slack.com/archives/C1/p12345\<close>: the call does not fail, and the
  \<open>message_ts\<close> it returns has no integer part.
\<close>

theorem short_digit_run_counterexample:
  "map_option (\<lambda>m. m ''message_ts'')
     (parse_slack_url fullwidth_digit (str ''https://a.slack.com/archives/C1/p12345''))
   = Some (Some (str ''.12345''))"
  by (simp add: parse_slack_url_def re_match_def url_pattern_def thread_pattern_def
      not_slash_def upper_or_digit_def digit_or_dot_def str_def
      slice_upto_def slice_from_def slice_bound_def)

text \<open>
  Claim C3. For every permalink
  \<^verbatim>\<open>https://<subdomain>.slack.com/archives/<CHANNEL>/p<DIGITS>\<close>, with a non-empty
  subdomain free of \<open>/\<close>, a non-empty channel of upper-case letters and digits, and a
  digit run \<open>ip @ fp\<close> of at least 7 digits of which \<open>fp\<close> are the last 6,
  \<open>parse_slack_url\<close> returns the channel as \<open>channel_id\<close> and \<open>ip.fp\<close> as
  \<open>message_ts\<close>. The digit run is the whole of what \<open>\d+\<close> takes: the link ends
  after it, or goes on with a character that is not a decimal digit, of ASCII or of
  another script (a query string, for instance).
\<close>

theorem permalink_resolution:
  assumes "sub \<noteq> []" "Ascii (CHR ''/'') \<notin> set sub"
    and "chan \<noteq> []" "\<forall>c \<in> set chan. upper_or_digit c"
    and "ip \<noteq> []" "length fp = 6" "\<forall>c \<in> set (ip @ fp). decimal nd c"
    and "rest = [] \<or> \<not> decimal nd (hd rest)"
  shows "\<exists>m. parse_slack_url nd
           (str ''https://'' @ sub @ str ''.slack.com/archives/'' @ chan @ str ''/p''
              @ ip @ fp @ rest) = Some m
         \<and> m ''channel_id'' = Some chan
         \<and> m ''message_ts'' = Some (ip @ str ''.'' @ fp)"
proof -
  have ne: "ip @ fp \<noteq> []" using assms(5) by simp
  have "slice_upto (ip @ fp) (- 6) = ip \<and> slice_from (ip @ fp) (- 6) = fp"
    using assms(6) by (rule slice_split)
  then show ?thesis
    using parse_permalink [OF assms(1-4) ne assms(7,8)] by simp
qed

text \<open>
  The permalink of the specification's example, and a permalink whose run of seven
  ASCII digits goes on with the full-width digit one (U+FF11): \<open>\d+\<close> takes the eight,
  and the last six of them are the fraction.
\<close>

theorem permalink_resolution_witness:
  "(\<exists>m. parse_slack_url fullwidth_digit
          (str ''https://workspace.slack.com/archives/C0123456789/p1700000000123456'') = Some m
      \<and> m ''channel_id'' = Some (str ''C0123456789'')
      \<and> m ''message_ts'' = Some (str ''1700000000.123456''))
   \<and> (\<exists>m. parse_slack_url fullwidth_digit
            (str ''https://a.slack.com/archives/C1/p1234567'' @ [Wide 0xFF11]) = Some m
      \<and> m ''channel_id'' = Some (str ''C1'')
      \<and> m ''message_ts'' = Some (str ''12.34567'' @ [Wide 0xFF11]))"
  using permalink_resolution
      [of "str ''workspace''" "str ''C0123456789''" "str ''1700000000''" "str ''123456''"
          fullwidth_digit "[]"]
    permalink_resolution
      [of "str ''a''" "str ''C1''" "str ''12''" "str ''34567'' @ [Wide 0xFF11]"
          fullwidth_digit "[]"]
  by (simp add: upper_or_digit_def fullwidth_digit_def str_def)

text \<open>
  Claim C7. For every permalink followed by \<^verbatim>\<open>?thread_ts=<ts>\<close>, where \<open>ts\<close> is a
  non-empty run of digits and dots that ends the link or is followed by another
  character (\<open>&\<close>, for instance), \<open>parse_slack_url\<close> returns \<open>ts\<close>, unchanged, as
  \<open>thread_ts\<close>. The subdomain is a host name: it has no \<open>=\<close>, so the text
  \<^verbatim>\<open>thread_ts=\<close> does not occur before the query string.
\<close>

theorem thread_ts_verbatim:
  assumes "sub \<noteq> []" "Ascii (CHR ''/'') \<notin> set sub" "Ascii (CHR ''='') \<notin> set sub"
    and "chan \<noteq> []" "\<forall>c \<in> set chan. upper_or_digit c"
    and "ds \<noteq> []" "\<forall>c \<in> set ds. decimal nd c"
    and "ts \<noteq> []" "\<forall>c \<in> set ts. digit_or_dot c"
    and "rest = [] \<or> \<not> digit_or_dot (hd rest)"
  shows "\<exists>m. parse_slack_url nd
           (str ''https://'' @ sub @ str ''.slack.com/archives/'' @ chan @ str ''/p'' @ ds
              @ str ''?thread_ts='' @ ts @ rest) = Some m
         \<and> m ''thread_ts'' = Some ts"
proof -
  let ?pre = "str ''https://'' @ sub @ str ''.slack.com/archives/'' @ chan @ str ''/p'' @ ds
                @ str ''?''"
  let ?url = "?pre @ str ''thread_ts='' @ ts @ rest"
  let ?tail = "str ''?thread_ts='' @ ts @ rest"
  have q: "?tail = [] \<or> \<not> decimal nd (hd ?tail)"
    by (simp add: str_def)
  have "rmatch (url_pattern nd)
          (str ''https://'' @ sub @ str ''.slack.com/archives/'' @ chan @ str ''/p'' @ ds @ ?tail)
        = Some ([chan, ds], ?tail)"
    by (rule url_pattern_match [OF assms(1,2) assms(4-7) q])
  then have "rmatch (url_pattern nd) ?url = Some ([chan, ds], ?tail)"
    by (simp add: str_def)
  then have m: "re_match (url_pattern nd) ?url = Some [chan, ds]"
    by (simp only: re_match_def option.case prod.case)
  have "Ascii (CHR ''='') \<notin> set chan" using assms(5) eq_not_upper_or_digit by blast
  moreover have "Ascii (CHR ''='') \<notin> set ds" using assms(7) eq_not_decimal by blast
  ultimately have "Ascii (CHR ''='') \<notin> set ?pre" using assms(3) by (simp add: str_def)
  then have s: "re_search thread_pattern ?url = Some [ts]"
    using assms(8-10) by (rule thread_search)
  have c: "contains (str ''thread_ts='') ?url" by (rule contains_append)
  have "\<exists>m. parse_slack_url nd ?url = Some m \<and> m ''thread_ts'' = Some ts"
    unfolding parse_slack_url_def Let_def m s using c by simp
  then show ?thesis by (simp add: str_def)
qed

text \<open>The query string of the specification's example.\<close>

theorem thread_ts_verbatim_witness:
  "\<exists>m. parse_slack_url fullwidth_digit
     (str ''https://workspace.slack.com/archives/C0123456789/p1700000000123456?thread_ts=1690000000.111111'')
       = Some m
     \<and> m ''thread_ts'' = Some (str ''1690000000.111111'')"
  using thread_ts_verbatim [of "str ''workspace''" "str ''C0123456789''"
      "str ''1700000000123456''" fullwidth_digit "str ''1690000000.111111''" "[]"]
  by (simp add: upper_or_digit_def digit_or_dot_def str_def)

section \<open>Properties of \<open>format_file_size\<close>\<close>

lemma round53_exact: "\<bar>n\<bar> \<le> 2 ^ 53 \<Longrightarrow> round53 n = n"
proof -
  assume a: "\<bar>n\<bar> \<le> 2 ^ 53"
  consider "\<bar>n\<bar> < 2 ^ 53" | "n = 2 ^ 53" | "n = - (2 ^ 53)" using a by linarith
  then show ?thesis
  proof cases
    case 1
    then show ?thesis by (simp add: round53_def)
  next
    case 2
    then show ?thesis by (simp add: round53_def bit_length.simps Let_def)
  next
    case 3
    then show ?thesis by (simp add: round53_def bit_length.simps Let_def)
  qed
qed

lemma bit_length_pow2: "bit_length (2 ^ k) = Suc k"
proof (induction k)
  case 0
  show ?case by (simp add: bit_length.simps)
next
  case (Suc k)
  have "bit_length (2 ^ Suc k) = Suc (bit_length ((2 ^ Suc k) div 2))"
    by (subst bit_length.simps) simp
  then show ?case using Suc by simp
qed

lemma round53_pow2: "53 \<le> k \<Longrightarrow> round53 (- (2 ^ k)) = - (2 ^ k)"
proof -
  assume k: "53 \<le> k"
  have "(2 :: int) ^ 53 \<le> 2 ^ k" using k by (intro power_increasing) simp_all
  then have big: "\<not> \<bar>- (2 ^ k) :: int\<bar> < 2 ^ 53" by simp
  have sh: "bit_length \<bar>- (2 ^ k) :: int\<bar> - 53 = k - 52" using k by (simp add: bit_length_pow2)
  have q: "(2 ^ k :: int) div 2 ^ (k - 52) = 2 ^ 52"
    using k by (simp add: power_diff flip: power_diff)
  have r: "(2 ^ k :: int) mod 2 ^ (k - 52) = 0"
    using k by (simp add: le_imp_power_dvd)
  have "(2 ^ 52 :: int) * 2 ^ (k - 52) = 2 ^ (52 + (k - 52))" by (rule power_add [symmetric])
  moreover have "52 + (k - 52) = k" using k by simp
  ultimately have whole: "(2 ^ 52 :: int) * 2 ^ (k - 52) = 2 ^ k" by (simp only:)
  show ?thesis
    unfolding round53_def using big sh q r whole by (simp add: Let_def)
qed

lemma float_of_int_exact: "\<bar>n\<bar> \<le> 2 ^ 53 \<Longrightarrow> float_of_int n = Inr (of_int n)"
  by (simp add: float_of_int_def round53_exact)



lemma format_1f_of_int: "format_1f (of_int n) = int_one_decimal n"
proof -
  have "round_half_even (\<bar>of_int n\<bar> * 10) = \<bar>n\<bar> * 10"
  proof -
    have "\<bar>of_int n :: rat\<bar> * 10 = of_int (\<bar>n\<bar> * 10)" by simp
    then show ?thesis unfolding round_half_even_def by (simp only: floor_of_int Let_def) simp
  qed
  moreover have "nat (\<bar>n\<bar> * 10) div 10 = nat \<bar>n\<bar>" by simp
  moreover have "nat (\<bar>n\<bar> * 10) mod 10 = 0" by (simp add: nat_mult_distrib)
  ultimately show ?thesis
    by (simp add: format_1f_def int_one_decimal_def show_nat.simps [of 0] digit_char_def)
qed



text \<open>
  Claim C9, as the code has it. For every integer argument from \<open>- (2 ^ 53)\<close> up to
  1023, zero and the negative values included, \<open>format_file_size\<close> returns the
  argument written with one decimal place and the unit \<open>B\<close>: a negative size is
  rendered, not rejected. (Below \<open>- (2 ^ 53)\<close> the digits are those of the nearest
  double, and from \<open>- (2 ^ 1024)\<close> down the conversion raises \<open>OverflowError\<close>.)
\<close>

theorem small_and_negative_sizes:
  assumes "- (2 ^ 53) \<le> n" and "n < 1024"
  shows "format_file_size n = Inr (int_one_decimal n @ ''B'')"
proof -
  have "\<bar>n\<bar> \<le> 2 ^ 53" using assms by simp
  then have "float_of_int n = Inr (of_int n)" by (rule float_of_int_exact)
  then show ?thesis
    using assms(2) by (simp add: format_file_size_def bind_err_def format_1f_of_int)
qed

text \<open>The specification's example, \<open>-5\<close>.\<close>

theorem small_and_negative_sizes_witness:
  "format_file_size (- 5) = Inr ''-5.0B''"
  using small_and_negative_sizes [of "- 5"]
  by (simp add: int_one_decimal_def show_nat.simps digit_char_def)

text \<open>
  Claim C9 as stated, for every integer below 1024, fails at \<open>- (2 ^ 1024)\<close>, where
  the call raises \<open>OverflowError\<close> and returns nothing, and at \<open>- (2 ^ 53) - 1\<close>,
  where the digits returned are not those of the argument.
\<close>

theorem negative_size_counterexample:
  "format_file_size (- (2 ^ 1024)) = Inl OverflowError
   \<and> format_file_size (- 9007199254740993) = Inr ''-9007199254740992.0B''
   \<and> int_one_decimal (- 9007199254740993) = ''-9007199254740993.0''"
proof -
  have "round53 (- (2 ^ 1024)) = - (2 ^ 1024)" by (rule round53_pow2) simp
  then have "format_file_size (- (2 ^ 1024)) = Inl OverflowError"
    by (simp add: format_file_size_def bind_err_def float_of_int_def)
  moreover have "format_file_size (- 9007199254740993) = Inr ''-9007199254740992.0B''"
    by (simp add: format_file_size_def bind_err_def float_of_int_def round53_def
        bit_length.simps Let_def format_1f_def round_half_even_def
        show_nat.simps digit_char_def)
  moreover have "int_one_decimal (- 9007199254740993) = ''-9007199254740993.0''"
    by (simp add: int_one_decimal_def show_nat.simps digit_char_def)
  ultimately show ?thesis by (simp only: simp_thms)
qed

section \<open>Exceptions as values\<close>

lemma bind_err_Inr [simp]: "bind_err (Inr x) f = f x"
  by (simp add: bind_err_def)

lemma bind_err_Inl [simp]: "bind_err (Inl e) f = Inl e"
  by (simp add: bind_err_def)

section \<open>Properties of \<open>extract_files_from_messages\<close>\<close>

lemma tag_files_dicts:
  "tag_files (JDict m) (map JDict fs) = Inr (map (with_owner m) fs)"
  by (induction fs) (simp_all add: with_owner_def field_or_empty_def)

lemma dicts_of_ok: "list_all is_dict fs \<Longrightarrow>
  map JDict (concat (map (\<lambda>f. case f of JDict kvs \<Rightarrow> [kvs] | _ \<Rightarrow> []) fs)) = fs"
proof (induction fs)
  case Nil
  then show ?case by simp
next
  case (Cons f fs)
  then show ?case by (cases f) simp_all
qed

lemma message_files:
  assumes "message_files_ok m"
  shows "bind_err (py_get (JDict m) ''files'' (JList [])) py_iter = Inr (map JDict (files_of m))"
proof (cases "map_of m ''files''")
  case None
  then show ?thesis by (simp add: files_of_def)
next
  case (Some x)
  with assms obtain fs where x: "x = JList fs" and ok: "list_all is_dict fs"
    by (cases x) (simp_all add: message_files_ok_def)
  show ?thesis using Some x dicts_of_ok [OF ok] by (simp add: files_of_def)
qed

lemma extract_loop_messages:
  "list_all message_files_ok ms \<Longrightarrow>
   extract_loop (map JDict ms) = Inr (concat (map (\<lambda>m. map (with_owner m) (files_of m)) ms))"
proof (induction ms)
  case Nil
  then show ?case by simp
next
  case (Cons m ms)
  then have ok: "message_files_ok m" and rest: "list_all message_files_ok ms" by simp_all
  have "bind_err (py_get (JDict m) ''files'' (JList [])) py_iter = Inr (map JDict (files_of m))"
    using ok by (rule message_files)
  then obtain mf where g: "py_get (JDict m) ''files'' (JList []) = Inr mf"
    and i: "py_iter mf = Inr (map JDict (files_of m))"
    by (cases "py_get (JDict m) ''files'' (JList [])") simp_all
  show ?case using g i Cons.IH [OF rest] by (simp add: tag_files_dicts del: py_get.simps)
qed

lemma map_of_dict_set:
  "map_of (dict_set kvs k v) k' = (if k' = k then Some v else map_of kvs k')"
  by (induction kvs) auto

lemma with_owner_fields:
  "py_get (with_owner m f) ''_message_ts'' d = Inr (field_or_empty m ''ts'')"
  "py_get (with_owner m f) ''_message_user'' d = Inr (field_or_empty m ''user'')"
  "k \<noteq> ''_message_ts'' \<Longrightarrow> k \<noteq> ''_message_user'' \<Longrightarrow>
     py_get (with_owner m f) k d = py_get (JDict f) k d"
  by (simp_all add: with_owner_def map_of_dict_set)

text \<open>
  Claim C6. For every sequence of messages of the data model,
  \<open>extract_files_from_messages\<close> returns the concatenation, in message order, of the
  file lists of the messages, each in its own order, nothing sorted, merged or
  dropped; each file record carries \<open>_message_ts\<close> and \<open>_message_user\<close>, set to the
  \<open>ts\<close> and the \<open>user\<close> of its message, the empty string where the message has
  none (\<open>with_owner\<close>, whose fields lemma \<open>with_owner_fields\<close> reads back).
\<close>

theorem extract_files_in_message_order:
  assumes "list_all message_files_ok ms"
  shows "extract_files_from_messages (JList (map JDict ms))
    = Inr (concat (map (\<lambda>m. map (with_owner m) (files_of m)) ms))"
  using assms by (simp add: extract_files_from_messages_def extract_loop_messages)

text \<open>
  Two messages, the first with one file and the second with two, one of them equal to
  the file of the first message: three records, in message order, each with the fields
  of its own message.
\<close>

theorem extract_files_in_message_order_witness:
  "extract_files_from_messages
     (JList [JDict [(''ts'', JStr ''1.0''), (''user'', JStr ''U1''),
                    (''files'', JList [JDict [(''name'', JStr ''a'')]])],
             JDict [(''ts'', JStr ''2.0''),
                    (''files'', JList [JDict [(''name'', JStr ''b'')],
                                       JDict [(''name'', JStr ''a'')]])]])
   = Inr [JDict [(''name'', JStr ''a''), (''_message_ts'', JStr ''1.0''),
                 (''_message_user'', JStr ''U1'')],
          JDict [(''name'', JStr ''b''), (''_message_ts'', JStr ''2.0''),
                 (''_message_user'', JStr '''')],
          JDict [(''name'', JStr ''a''), (''_message_ts'', JStr ''2.0''),
                 (''_message_user'', JStr '''')]]"
  using extract_files_in_message_order
    [of "[[(''ts'', JStr ''1.0''), (''user'', JStr ''U1''),
           (''files'', JList [JDict [(''name'', JStr ''a'')]])],
          [(''ts'', JStr ''2.0''),
           (''files'', JList [JDict [(''name'', JStr ''b'')], JDict [(''name'', JStr ''a'')]])]]"]
  by (simp add: message_files_ok_def files_of_def with_owner_def field_or_empty_def)

section \<open>Properties of the output stage\<close>

lemma bind_Inl [simp]: "bind (es, Inl e) f = (es, Inl e)"
  by (simp add: bind_def)

lemma bind_Inr [simp]: "bind (es, Inr x) f = (es @ fst (f x), snd (f x))"
  by (simp add: bind_def split: prod.split)

lemma bind_lift_Inr [simp]: "bind (lift (Inr x)) f = f x"
  by (simp add: bind_def lift_def split: prod.split)

lemma bind_lift_Inl [simp]: "bind (lift (Inl e)) f = ([], Inl e)"
  by (simp add: bind_def lift_def)

lemma bind_emit [simp]: "bind (emit ev) f = (ev # fst (f ()), snd (f ()))"
  by (simp add: bind_def emit_def split: prod.split)

lemma bind_print [simp]:
  "bind (print s) f = (Stdout (s @ ''\<newline>'') # fst (f ()), snd (f ()))"
  by (simp add: print_def)

lemma check_ok_false:
  assumes "map_of kvs ''ok'' = Some (JBool False)" and "map_of kvs ''error'' = Some (JStr e)"
  shows "check_ok E (JDict kvs) = ([Stderr (''Error: '' @ e @ ''\<newline>'')], Inl (SystemExit 1))"
  using assms by (simp add: check_ok_def lift_def)

text \<open>
  Claim C4, as the code has it. For every response envelope whose \<open>ok\<close> field is
  false and whose \<open>error\<close> field is a string: when \<open>--json\<close> is not given, the run
  writes \<open>Error:\<close> and the error string, unchanged, to standard error, writes nothing
  else, and ends with status 1, so that, whatever the other flags and the other fields
  of the envelope are, no payload (messages, matches, channels, user, channel) is
  read; when \<open>--json\<close> is given, the run prints the envelope as \<open>json.dumps\<close> writes
  it, writes nothing else, and ends with status 0.
\<close>

theorem failed_envelope_is_reported:
  assumes "map_of kvs ''ok'' = Some (JBool False)"
    and "map_of kvs ''error'' = Some (JStr e)"
  shows "main_output E a (JDict kvs) =
    (if json_flag a then ([Stdout (dumps E (JDict kvs) @ ''\<newline>'')], 0)
     else ([Stderr (''Error: '' @ e @ ''\<newline>'')], 1))"
proof (cases "json_flag a")
  case True
  have "kvs \<noteq> []" using assms(1) by auto
  then show ?thesis
    using True by (simp add: main_output_def present_def print_def emit_def)
next
  case False
  have "kvs \<noteq> []" using assms(1) by auto
  then show ?thesis
    using False check_ok_false [OF assms]
    by (simp add: main_output_def present_def bind_def)
qed

text \<open>
  The envelope of the specification's example, with a payload beside the error and
  with the file and search flags set: without \<open>--json\<close>, and with it.
\<close>

theorem failed_envelope_is_reported_witness:
  "main_output quiet_env
     \<lparr>json_flag = False, list_files = True, download_files = True, verbose = False,
      search = Some ''q'', output_dir = ''d''\<rparr>
     (JDict [(''ok'', JBool False), (''error'', JStr ''not_authed''),
             (''messages'', JList [JDict [(''files'', JList [JDict []])]])])
   = ([Stderr ''Error: not_authed\<newline>''], 1)
   \<and> main_output quiet_env
     \<lparr>json_flag = True, list_files = True, download_files = True, verbose = False,
      search = Some ''q'', output_dir = ''d''\<rparr>
     (JDict [(''ok'', JBool False), (''error'', JStr ''not_authed''),
             (''messages'', JList [JDict [(''files'', JList [JDict []])]])])
   = ([Stdout (dumps quiet_env
                 (JDict [(''ok'', JBool False), (''error'', JStr ''not_authed''),
                         (''messages'', JList [JDict [(''files'', JList [JDict []])]])])
               @ ''\<newline>'')], 0)"
  using failed_envelope_is_reported
    [of "[(''ok'', JBool False), (''error'', JStr ''not_authed''),
          (''messages'', JList [JDict [(''files'', JList [JDict []])]])]"
        "''not_authed''" quiet_env
        "\<lparr>json_flag = False, list_files = True, download_files = True, verbose = False,
          search = Some ''q'', output_dir = ''d''\<rparr>"]
    failed_envelope_is_reported
    [of "[(''ok'', JBool False), (''error'', JStr ''not_authed''),
          (''messages'', JList [JDict [(''files'', JList [JDict []])]])]"
        "''not_authed''" quiet_env
        "\<lparr>json_flag = True, list_files = True, download_files = True, verbose = False,
          search = Some ''q'', output_dir = ''d''\<rparr>"]
  by simp

text \<open>
  Claim C4 as stated, for every envelope whose \<open>ok\<close> field is false, fails with
  \<open>--json\<close>: the envelope is printed to standard output and the status is 0.
\<close>

theorem failed_envelope_json_counterexample:
  "main_output quiet_env
     \<lparr>json_flag = True, list_files = False, download_files = False, verbose = False,
      search = None, output_dir = ''./slack-downloads''\<rparr>
     (JDict [(''ok'', JBool False), (''error'', JStr ''not_authed'')])
   = ([Stdout (dumps quiet_env (JDict [(''ok'', JBool False), (''error'', JStr ''not_authed'')])
               @ ''\<newline>'')], 0)"
  by (simp add: main_output_def present_def print_def emit_def)

text \<open>
  Claim C2. The code at a search response in the default output mode: \<open>messages\<close> is
  a non-empty \<open>dict\<close>, the branch for plain messages takes it, counts its keys,
  and \<open>format_message\<close> raises on the first key, a \<open>str\<close>; the handler reports the
  exception, the status is 1, and the lines that read \<open>matches\<close> are never reached.
\<close>

theorem search_response_takes_plain_path:
  "main_output quiet_env
     \<lparr>json_flag = False, list_files = False, download_files = False, verbose = False,
      search = Some ''keyword'', output_dir = ''./slack-downloads''\<rparr>
     (JDict [(''ok'', JBool True),
             (''messages'', JDict [(''total'', JInt 1),
                (''matches'', JList [JDict [(''user'', JStr ''U1''), (''ts'', JStr ''1.0''),
                                            (''text'', JStr ''hi'')]])])])
   = ([Stdout ''Found 2 message(s):\<newline>\<newline>'',
       Stderr (''Error: '' @ exc_text quiet_env AttributeError @ ''\<newline>'')], 1)"
  by (simp add: main_output_def present_def check_ok_def show_messages_def format_message_def
      display_name_def show_nat.simps digit_char_def)

lemma download_loop_skip:
  assumes "map_of kvs ''url_private_download'' = None" and "map_of kvs ''url_private'' = None"
  shows "download_loop E dir (JDict kvs # fs) s = download_loop E dir fs s"
  using assms by simp

lemma download_loop_without:
  assumes "map_of kvs ''url_private_download'' = None" and "map_of kvs ''url_private'' = None"
  shows "download_loop E dir (fs1 @ JDict kvs # fs2) s = download_loop E dir (fs1 @ fs2) s"
proof (induction fs1 arbitrary: s)
  case Nil
  show ?case using assms by simp
next
  case (Cons f fs1)
  show ?case by (simp add: Cons.IH cong: if_cong)
qed

text \<open>
  Claim C10. In the download batch, a file record with neither
  \<open>url_private_download\<close> nor \<open>url_private\<close> is skipped in silence: the loop does
  for the batch what it does for the batch without that record (no download, no line
  printed, no failure, the count of successes unchanged), and the total of the summary
  still counts the record.
\<close>

theorem file_without_url_is_skipped_but_counted:
  assumes "map_of kvs ''url_private_download'' = None" and "map_of kvs ''url_private'' = None"
  shows "download_batch E dir (fs1 @ JDict kvs # fs2) =
    bind (print (''\<newline>Downloading to: '' @ dir)) (\<lambda>_.
    bind (emit (Mkdir dir)) (\<lambda>_.
    bind (download_loop E dir (fs1 @ fs2) 0) (\<lambda>success.
    print (''\<newline>Downloaded '' @ show_nat success @ ''/''
           @ show_nat (Suc (length (fs1 @ fs2))) @ '' files.''))))"
  unfolding download_batch_def download_loop_without [OF assms] by simp

text \<open>
  A batch of one file with a URL, whose download succeeds, and one file without: the
  summary is \<open>1/2\<close> and no download is reported as failed.
\<close>

theorem file_without_url_is_skipped_but_counted_witness:
  "download_batch quiet_env ''d''
     [JDict [(''name'', JStr ''a.txt''), (''url_private'', JStr ''https://files/a'')],
      JDict [(''name'', JStr ''b.txt'')]]
   = ([Stdout ''\<newline>Downloading to: d\<newline>'', Mkdir ''d'',
       Stdout ''  Downloading: a.txt... '', Download (JStr ''https://files/a'') ''d/a.txt'',
       Stdout ''OK\<newline>'', Stdout ''\<newline>Downloaded 1/2 files.\<newline>''], Inr ())"
  using file_without_url_is_skipped_but_counted
    [of "[(''name'', JStr ''b.txt'')]" quiet_env "''d''"
        "[JDict [(''name'', JStr ''a.txt''), (''url_private'', JStr ''https://files/a'')]]" "[]"]
  by (simp add: quiet_env_def show_nat.simps digit_char_def print_def emit_def)

section \<open>Properties of \<open>format_message\<close>\<close>

lemma display_name_string:
  assumes "raw_id m = JStr uid"
  shows "display_name (JDict m) users_cache = Inr (JStr (author_name uid users_cache))"
proof -
  have g: "bind_err (py_get (JDict m) ''bot_id'' (JStr ''unknown''))
             (\<lambda>bot_id. py_get (JDict m) ''user'' bot_id) = Inr (JStr uid)"
    using assms by (simp add: raw_id_def split: option.splits)
  show ?thesis
  proof (cases users_cache)
    case None
    then show ?thesis using g by (simp add: display_name_def author_name_def)
  next
    case (Some c)
    then show ?thesis using g
      by (cases "c = []") (simp_all add: display_name_def author_name_def split: option.splits)
  qed
qed

text \<open>
  Claim C8. The author's name in the line that \<open>format_message\<close> returns: the raw
  id is the \<open>user\<close> field of the message, else its \<open>bot_id\<close> field, else
  \<open>unknown\<close>; when a \<open>users_cache\<close> is supplied and holds the id, the name it maps
  the id to is shown, otherwise the raw id is. The name stands after the bracketed time
  and before the colon. The ids of the data model are strings.
\<close>

theorem author_display_name:
  assumes "raw_id m = JStr uid"
    and "format_message E (JDict m) users_cache = Inr out"
  shows "\<exists>rest. out = ''['' @ py_str E (time_str E (field_or_empty m ''ts'')) @ ''] ''
           @ author_name uid users_cache @ '':\<newline>  '' @ rest"
proof -
  have d: "display_name (JDict m) users_cache = Inr (JStr (author_name uid users_cache))"
    using assms(1) by (rule display_name_string)
  show ?thesis
    using assms(2) unfolding format_message_def d
    by (auto simp: bind_err_def field_or_empty_def split: sum.splits if_splits option.splits)
qed

text \<open>
  A bot message whose id the cache holds, a message whose \<open>user\<close> the cache does not
  hold, and a message with neither field.
\<close>

theorem author_display_name_witness:
  "format_message quiet_env (JDict [(''bot_id'', JStr ''B1''), (''text'', JStr ''hi'')])
     (Some [(''B1'', ''deploybot'')]) = Inr ''[unknown] deploybot:\<newline>  hi''
   \<and> format_message quiet_env (JDict [(''user'', JStr ''U1''), (''bot_id'', JStr ''B1'')])
     (Some [(''B1'', ''deploybot'')]) = Inr ''[unknown] U1:\<newline>  ''
   \<and> format_message quiet_env (JDict [(''text'', JStr ''hi'')]) None
       = Inr ''[unknown] unknown:\<newline>  hi''"
  using author_display_name
    [of "[(''bot_id'', JStr ''B1''), (''text'', JStr ''hi'')]" "''B1''" quiet_env
        "Some [(''B1'', ''deploybot'')]" "''[unknown] deploybot:\<newline>  hi''"]
  by (simp add: format_message_def display_name_def time_str_def quiet_env_def)

end
